theory Spec2Isabelle
  imports Complex_Main
begin

section \<open>JavaScript objects used as dictionaries\<close>

text \<open>
  The server keeps three plain object literals: \<open>uriMap\<close>, \<open>connections\<close> and \<open>models\<close>.
  A read \<open>obj[key]\<close> on such an object first looks at the object's own properties and
  then at \<open>Object.prototype\<close>, so a key such as \<open>constructor\<close> reads as a (truthy)
  function although the literal never mentions it. The names below are the members of
  \<open>Object.prototype\<close>; each of them reads as a function, \<open>__proto__\<close> as the prototype
  object itself, and all of them are truthy.
\<close>

definition object_prototype_keys :: "string list" where
  "object_prototype_keys =
     [''constructor'', ''__defineGetter__'', ''__defineSetter__'', ''hasOwnProperty'',
      ''__lookupGetter__'', ''__lookupSetter__'', ''isPrototypeOf'',
      ''propertyIsEnumerable'', ''toString'', ''valueOf'', ''__proto__'',
      ''toLocaleString'']"

datatype 'a property = Undefined | Own 'a | Inherited string

definition js_get :: "(string \<rightharpoonup> 'a) \<Rightarrow> string \<Rightarrow> 'a property" where
  "js_get obj k =
     (case obj k of
        Some v \<Rightarrow> Own v
      | None \<Rightarrow> if k \<in> set object_prototype_keys then Inherited k else Undefined)"

section \<open>Configuration\<close>

text \<open>
  \<open>process.env.MONGO_CLIENT_URI\<close> and \<open>process.env.MONGO_SERVER_URI\<close> are strings, or
  \<open>undefined\<close> (here \<open>None\<close>) when the variable is not set.
\<close>

record env =
  MONGO_CLIENT_URI :: "string option"
  MONGO_SERVER_URI :: "string option"

definition uriMap :: "env \<Rightarrow> (string \<rightharpoonup> string option)" where
  "uriMap e = [''ProductsDB'' \<mapsto> MONGO_CLIENT_URI e, ''UsersEmployeesDB'' \<mapsto> MONGO_SERVER_URI e]"

text \<open>Truthiness of \<open>uriMap[dbName]\<close>: \<open>undefined\<close> and the empty string are falsy.\<close>

fun truthy_uri :: "string option property \<Rightarrow> bool" where
  "truthy_uri Undefined = False"
| "truthy_uri (Own None) = False"
| "truthy_uri (Own (Some u)) = (u \<noteq> [])"
| "truthy_uri (Inherited k) = True"

text \<open>Truthiness of a cache read: every object (and every inherited member) is truthy.\<close>

fun truthy :: "'a property \<Rightarrow> bool" where
  "truthy Undefined = False"
| "truthy (Own v) = True"
| "truthy (Inherited k) = True"

section \<open>Errors\<close>

text \<open>
  The code throws plain \<open>Error\<close> objects told apart by their message; the constructors
  carry the names the specification gives them.
  \<^item> \<open>UnconfiguredDatabase d\<close>: \<open>Error("No URI mapped for database: d")\<close>;
  \<^item> \<open>ConnectionError\<close>: the rejection of \<open>mongoose.createConnection\<close>;
  \<^item> \<open>UnknownCollection c\<close>: \<open>Error("No schema defined for collection: c")\<close>;
  \<^item> \<open>ReferenceError x\<close>: reading the undeclared variable \<open>x\<close>;
  \<^item> \<open>TypeError\<close>: calling \<open>connection.model\<close> on a value that has no such method;
  \<^item> \<open>ValidationError\<close>: a record rejected by the structural contract;
  \<^item> \<open>StorageError\<close>: any other rejection by the storage layer.
\<close>

datatype error =
    UnconfiguredDatabase string
  | ConnectionError
  | UnknownCollection string
  | ReferenceError string
  | TypeError
  | ValidationError
  | StorageError

section \<open>Structural contracts\<close>

text \<open>
  \<open>productSchema\<close> as declared: \<open>name\<close> is a required, trimmed String; \<open>price\<close> is a
  required Number with minimum 0; \<open>timestamps\<close> is on.
\<close>

datatype field_type = TString | TNumber

record field_spec =
  ftype :: field_type
  required :: bool
  trim :: bool
  minimum :: "rat option"

record collection_schema =
  schema_fields :: "(string \<times> field_spec) list"
  schema_timestamps :: bool

definition productSchema :: collection_schema where
  "productSchema =
     \<lparr> schema_fields =
         [(''name'',  \<lparr> ftype = TString, required = True, trim = True,  minimum = None \<rparr>),
          (''price'', \<lparr> ftype = TNumber, required = True, trim = False, minimum = Some 0 \<rparr>)],
       schema_timestamps = True \<rparr>"

section \<open>The registries\<close>

text \<open>
  A connection is identified by the ordinal of the \<open>createConnection\<close> call that made it:
  two calls give two distinct objects, also for the same URI. A model likewise carries the
  ordinal of the \<open>connection.model\<close> call that compiled it.
\<close>

datatype connection = Connection (conn_id: nat) (conn_uri: string)

datatype model =
  Model (model_id: nat) (model_conn: connection) (model_name: string)
        (model_schema: collection_schema) (model_collection: string)

text \<open>
  The module state: the two caches, and the log of the calls made to the two external
  constructors (the URIs given to \<open>mongoose.createConnection\<close>, and the connection and
  name given to \<open>connection.model\<close>), in call order. \<open>console.log\<close> output is not modelled.
\<close>

record registry =
  connections :: "string \<rightharpoonup> connection"
  models :: "string \<rightharpoonup> model"
  created :: "string option property list"
  compiled :: "(connection \<times> string) list"

definition init :: registry where
  "init = \<lparr> connections = Map.empty, models = Map.empty, created = [], compiled = [] \<rparr>"

text \<open>
  The network is a parameter: \<open>net n uri\<close> tells whether the \<open>n\<close>-th call of
  \<open>mongoose.createConnection\<close> (counted from 0), made with \<open>uri\<close>, resolves. An argument
  that is not a string never produces a connection.
\<close>

type_synonym network = "nat \<Rightarrow> string \<Rightarrow> bool"

fun createConnection :: "network \<Rightarrow> nat \<Rightarrow> string option property \<Rightarrow> error + connection" where
  "createConnection net n (Own (Some uri)) =
     (if net n uri then Inr (Connection n uri) else Inl ConnectionError)"
| "createConnection net n v = Inl ConnectionError"

subsection \<open>getConnection\<close>

text \<open>
  An \<open>async\<close> function runs synchronously up to its first \<open>await\<close> and is resumed later,
  when the awaited promise has settled. \<open>getConnection\<close> has one \<open>await\<close>: the part before
  it is \<open>getConnection_begin\<close>, which either finishes at once or has issued the
  \<open>createConnection\<close> call and waits; the part after it is \<open>getConnection_resume\<close>.
  A call that nothing else interleaves with is the two parts run back to back.
\<close>

datatype gc_task =
    GC_Return "error + connection property"
  | GC_Await string nat "string option property"

definition getConnection_begin :: "env \<Rightarrow> string \<Rightarrow> registry \<Rightarrow> gc_task \<times> registry" where
  "getConnection_begin e dbName s =
     (if \<not> truthy_uri (js_get (uriMap e) dbName)
      then (GC_Return (Inl (UnconfiguredDatabase dbName)), s)
      else if \<not> truthy (js_get (connections s) dbName)
      then (let DB_URI = js_get (uriMap e) dbName
            in (GC_Await dbName (length (created s)) DB_URI,
                s\<lparr>created := created s @ [DB_URI]\<rparr>))
      else (GC_Return (Inr (js_get (connections s) dbName)), s))"

fun getConnection_resume ::
  "network \<Rightarrow> gc_task \<Rightarrow> registry \<Rightarrow> (error + connection property) \<times> registry" where
  "getConnection_resume net (GC_Return r) s = (r, s)"
| "getConnection_resume net (GC_Await dbName n DB_URI) s =
     (case createConnection net n DB_URI of
        Inl err \<Rightarrow> (Inl err, s)
      | Inr c \<Rightarrow>
          (let s' = s\<lparr>connections := (connections s)(dbName \<mapsto> c)\<rparr>
           in (Inr (js_get (connections s') dbName), s')))"

definition getConnection ::
  "env \<Rightarrow> network \<Rightarrow> string \<Rightarrow> registry \<Rightarrow> (error + connection property) \<times> registry" where
  "getConnection e net dbName s =
     (case getConnection_begin e dbName s of (t, s') \<Rightarrow> getConnection_resume net t s')"

subsection \<open>getModel\<close>

definition modelKey :: "string \<Rightarrow> string \<Rightarrow> string" where
  "modelKey dbName collectionName = dbName @ ''-'' @ collectionName"

text \<open>
  The \<open>switch\<close> on the collection name. \<open>userSchema\<close> and \<open>employeeSchema\<close> are declared
  nowhere (their \<open>require\<close> lines are commented out), so reading them throws.
\<close>

definition select_schema :: "string \<Rightarrow> error + collection_schema" where
  "select_schema collectionName =
     (if collectionName = ''Products'' then Inr productSchema
      else if collectionName = ''Users'' then Inl (ReferenceError ''userSchema'')
      else if collectionName = ''Employees'' then Inl (ReferenceError ''employeeSchema'')
      else Inl (UnknownCollection collectionName))"

text \<open>
  \<open>connection.model(name, schema, collection)\<close>: a connection compiles a new model; any
  other value has no \<open>model\<close> method. Calls made one after the other never ask the same
  connection for the same name twice, since the first answer is cached under the key.
\<close>

fun connection_model ::
  "connection property \<Rightarrow> nat \<Rightarrow> string \<Rightarrow> collection_schema \<Rightarrow> string \<Rightarrow> error + model" where
  "connection_model (Own c) n name sch coll = Inr (Model n c name sch coll)"
| "connection_model v n name sch coll = Inl TypeError"

datatype gm_task =
    GM_Return "error + model property"
  | GM_Await string string gc_task

definition getModel_begin ::
  "env \<Rightarrow> string \<Rightarrow> string \<Rightarrow> registry \<Rightarrow> gm_task \<times> registry" where
  "getModel_begin e dbName collectionName s =
     (if \<not> truthy (js_get (models s) (modelKey dbName collectionName))
      then (case getConnection_begin e dbName s of
              (t, s') \<Rightarrow> (GM_Await dbName collectionName t, s'))
      else (GM_Return (Inr (js_get (models s) (modelKey dbName collectionName))), s))"

fun getModel_resume ::
  "network \<Rightarrow> gm_task \<Rightarrow> registry \<Rightarrow> (error + model property) \<times> registry" where
  "getModel_resume net (GM_Return r) s = (r, s)"
| "getModel_resume net (GM_Await dbName collectionName t) s =
     (case getConnection_resume net t s of
        (Inl err, s') \<Rightarrow> (Inl err, s')
      | (Inr conn, s') \<Rightarrow>
          (case select_schema collectionName of
             Inl err \<Rightarrow> (Inl err, s')
           | Inr sch \<Rightarrow>
               (case connection_model conn (length (compiled s')) collectionName sch collectionName of
                  Inl err \<Rightarrow> (Inl err, s')
                | Inr m \<Rightarrow>
                    (let s'' = s'\<lparr>models := (models s')(modelKey dbName collectionName \<mapsto> m),
                                   compiled := compiled s' @ [(model_conn m, collectionName)]\<rparr>
                     in (Inr (js_get (models s'') (modelKey dbName collectionName)), s'')))))"

definition getModel ::
  "env \<Rightarrow> network \<Rightarrow> string \<Rightarrow> string \<Rightarrow> registry \<Rightarrow> (error + model property) \<times> registry" where
  "getModel e net dbName collectionName s =
     (case getModel_begin e dbName collectionName s of (t, s') \<Rightarrow> getModel_resume net t s')"

subsection \<open>Calls that overlap\<close>

text \<open>
  Two calls overlap when the second starts while the first is suspended at its \<open>await\<close>
  (two requests arriving while the connection is being established, or two calls made in
  the same tick). Both run their first part, then both are resumed, the first one first.
\<close>

definition overlapping_getConnection ::
  "env \<Rightarrow> network \<Rightarrow> string \<Rightarrow> registry \<Rightarrow>
     (error + connection property) \<times> (error + connection property) \<times> registry" where
  "overlapping_getConnection e net dbName s =
     (case getConnection_begin e dbName s of (t1, s1) \<Rightarrow>
      case getConnection_begin e dbName s1 of (t2, s2) \<Rightarrow>
      case getConnection_resume net t1 s2 of (r1, s3) \<Rightarrow>
      case getConnection_resume net t2 s3 of (r2, s4) \<Rightarrow> (r1, r2, s4))"

definition overlapping_getModel ::
  "env \<Rightarrow> network \<Rightarrow> string \<Rightarrow> string \<Rightarrow> registry \<Rightarrow>
     (error + model property) \<times> (error + model property) \<times> registry" where
  "overlapping_getModel e net dbName collectionName s =
     (case getModel_begin e dbName collectionName s of (t1, s1) \<Rightarrow>
      case getModel_begin e dbName collectionName s1 of (t2, s2) \<Rightarrow>
      case getModel_resume net t1 s2 of (r1, s3) \<Rightarrow>
      case getModel_resume net t2 s3 of (r2, s4) \<Rightarrow> (r1, r2, s4))"

subsection \<open>States the server can be in\<close>

text \<open>
  The registries start empty and change only through calls of \<open>getConnection\<close> and
  \<open>getModel\<close>. Requests are served concurrently: a call may start while others are
  suspended at their \<open>await\<close>, and suspended calls are resumed in any order, with any
  behaviour of the network. \<open>running e s pool\<close> says that the server can be in state \<open>s\<close>
  with the calls in \<open>pool\<close> suspended.
\<close>

datatype task = ConnectionCall gc_task | ModelCall gm_task

inductive running :: "env \<Rightarrow> registry \<Rightarrow> task list \<Rightarrow> bool" for e :: env where
  running_init: "running e init []"
| call_getConnection:
    "running e s pool \<Longrightarrow> getConnection_begin e dbName s = (t, s') \<Longrightarrow>
       running e s' (ConnectionCall t # pool)"
| call_getModel:
    "running e s pool \<Longrightarrow> getModel_begin e dbName collectionName s = (t, s') \<Longrightarrow>
       running e s' (ModelCall t # pool)"
| resume_getConnection:
    "running e s pool \<Longrightarrow> ConnectionCall t \<in> set pool \<Longrightarrow>
     getConnection_resume net t s = (r, s') \<Longrightarrow>
       running e s' (remove1 (ConnectionCall t) pool)"
| resume_getModel:
    "running e s pool \<Longrightarrow> ModelCall t \<in> set pool \<Longrightarrow>
     getModel_resume net t s = (r, s') \<Longrightarrow>
       running e s' (remove1 (ModelCall t) pool)"

text \<open>
  The invariant of these states: every cached connection belongs to an identity that is
  an own key of \<open>uriMap\<close> with a non-empty URI, every key of the accessor cache is made of
  such an identity and the collection name \<open>Products\<close> and holds an accessor whose contract
  is \<open>productSchema\<close>, and every suspended call that can still write to a cache will write
  under such an identity.
\<close>

definition configured :: "env \<Rightarrow> string \<Rightarrow> bool" where
  "configured e d \<longleftrightarrow> (\<exists>u. uriMap e d = Some (Some u) \<and> u \<noteq> [])"

fun gc_ok :: "env \<Rightarrow> string \<Rightarrow> gc_task \<Rightarrow> bool" where
  "gc_ok e d (GC_Await d' n v) = (d' = d \<and> configured e d)"
| "gc_ok e d (GC_Return (Inr (Own k))) = configured e d"
| "gc_ok e d (GC_Return r) = True"

fun task_ok :: "env \<Rightarrow> task \<Rightarrow> bool" where
  "task_ok e (ConnectionCall (GC_Await d n v)) = configured e d"
| "task_ok e (ConnectionCall (GC_Return r)) = True"
| "task_ok e (ModelCall (GM_Await d c t)) = gc_ok e d t"
| "task_ok e (ModelCall (GM_Return r)) = True"

definition registry_inv :: "env \<Rightarrow> registry \<Rightarrow> bool" where
  "registry_inv e s \<longleftrightarrow>
     (\<forall>d k. connections s d = Some k \<longrightarrow> configured e d) \<and>
     (\<forall>key m. models s key = Some m \<longrightarrow>
        model_schema m = productSchema \<and> (\<exists>d. key = modelKey d ''Products'' \<and> configured e d))"

section \<open>Startup\<close>

text \<open>
  \<open>Model.estimatedDocumentCount()\<close> is a query to the database: \<open>cnt m\<close> is its answer for
  the model \<open>m\<close>, \<open>None\<close> when the query is rejected.
\<close>

fun estimatedDocumentCount :: "(model \<Rightarrow> nat option) \<Rightarrow> model property \<Rightarrow> error + nat" where
  "estimatedDocumentCount cnt (Own m) =
     (case cnt m of None \<Rightarrow> Inl StorageError | Some n \<Rightarrow> Inr n)"
| "estimatedDocumentCount cnt v = Inl TypeError"

fun probe_collections ::
  "env \<Rightarrow> network \<Rightarrow> (model \<Rightarrow> nat option) \<Rightarrow> string \<Rightarrow> string list \<Rightarrow> registry \<Rightarrow>
     (error + unit) \<times> registry" where
  "probe_collections e net cnt dbName [] s = (Inr (), s)"
| "probe_collections e net cnt dbName (collectionName # rest) s =
     (case getModel e net dbName collectionName s of
        (Inl err, s') \<Rightarrow> (Inl err, s')
      | (Inr M, s') \<Rightarrow>
          (case estimatedDocumentCount cnt M of
             Inl err \<Rightarrow> (Inl err, s')
           | Inr n \<Rightarrow> probe_collections e net cnt dbName rest s'))"

fun probe_databases ::
  "env \<Rightarrow> network \<Rightarrow> (model \<Rightarrow> nat option) \<Rightarrow> string list \<Rightarrow> registry \<Rightarrow>
     (error + unit) \<times> registry" where
  "probe_databases e net cnt [] s = (Inr (), s)"
| "probe_databases e net cnt (dbName # rest) s =
     (case getConnection e net dbName s of
        (Inl err, s') \<Rightarrow> (Inl err, s')
      | (Inr conn, s') \<Rightarrow>
          (let testCollections =
                 (if dbName = ''ProductsDB'' then [''Products''] else [''Users'', ''Employees''])
           in case probe_collections e net cnt dbName testCollections s' of
                (Inl err, s'') \<Rightarrow> (Inl err, s'')
              | (Inr u, s'') \<Rightarrow> probe_databases e net cnt rest s''))"

text \<open>\<open>Listening\<close>: \<open>app.listen\<close> was reached. \<open>Exit1 err\<close>: the \<open>catch\<close> ran \<open>process.exit(1)\<close>.\<close>

datatype startup = Listening | Exit1 error

definition startServer ::
  "env \<Rightarrow> network \<Rightarrow> (model \<Rightarrow> nat option) \<Rightarrow> registry \<Rightarrow> startup \<times> registry" where
  "startServer e net cnt s =
     (case probe_databases e net cnt [''ProductsDB'', ''UsersEmployeesDB''] s of
        (Inl err, s') \<Rightarrow> (Exit1 err, s')
      | (Inr u, s') \<Rightarrow> (Listening, s'))"

section \<open>Accessor operations\<close>

text \<open>
  Modelled from the spec: the records of a collection, which live in the database and are
  reached through the storage library, none of it code of this repository. A record is a
  list of named fields, each a string or a number (a number is the rational its JSON
  literal denotes); a stored record is paired with its generated identity; the database
  holds the records of every collection and counts the identities it has generated.
\<close>

datatype jsvalue = JString string | JNumber rat

type_synonym document = "(string \<times> jsvalue) list"

type_synonym stored = "string \<times> document"

record storage =
  data :: "string \<times> string \<Rightarrow> stored list"
  generated :: nat

text \<open>
  Modelled from the spec: the collection an accessor is bound to, addressed by the URI of
  the accessor's connection and its collection name.
\<close>

definition collection_of :: "model \<Rightarrow> string \<times> string" where
  "collection_of m = (conn_uri (model_conn m), model_collection m)"

text \<open>
  Modelled from the spec: the validation of one field against its declaration in the
  structural contract, done by the storage library and not by this repository. A missing
  field passes unless it is declared required; a present field passes when it has the
  declared type and respects the declared minimum.
\<close>

fun valid_field :: "field_spec \<Rightarrow> jsvalue option \<Rightarrow> bool" where
  "valid_field spec None = (\<not> required spec)"
| "valid_field spec (Some (JString v)) = (ftype spec = TString)"
| "valid_field spec (Some (JNumber x)) =
     (ftype spec = TNumber \<and> (case minimum spec of None \<Rightarrow> True | Some lo \<Rightarrow> lo \<le> x))"

text \<open>
  Modelled from the spec: a record satisfies the structural contract when each field the
  contract declares passes.
\<close>

definition valid :: "collection_schema \<Rightarrow> document \<Rightarrow> bool" where
  "valid sch doc = list_all (\<lambda>(name, spec). valid_field spec (map_of doc name)) (schema_fields sch)"

text \<open>
  Modelled from the spec: generated identities are opaque strings; the \<open>n\<close>-th identity
  the storage layer generates is written as \<open>n + 1\<close> characters.
\<close>

definition identity_of :: "nat \<Rightarrow> string" where
  "identity_of n = replicate (Suc n) (CHR ''i'')"

text \<open>
  Modelled from the spec: \<open>listAll\<close> (\<open>Model.find({}).lean()\<close> in the handlers), the records
  of the whole collection, the empty sequence when there is none.
\<close>

definition listAll :: "model \<Rightarrow> storage \<Rightarrow> stored list" where
  "listAll m db = data db (collection_of m)"

text \<open>
  Modelled from the spec: \<open>insertOne\<close> (\<open>Model.create\<close>) validates the record against the
  contract before persisting; an invalid record fails with \<open>ValidationError\<close> and is not
  persisted; a valid one is stored under a generated identity, which is returned.
\<close>

definition insertOne :: "model \<Rightarrow> document \<Rightarrow> storage \<Rightarrow> (error + string) \<times> storage" where
  "insertOne m doc db =
     (if \<not> valid (model_schema m) doc then (Inl ValidationError, db)
      else (let ident = identity_of (generated db)
            in (Inr ident,
                db\<lparr>data := (data db)(collection_of m := data db (collection_of m) @ [(ident, doc)]),
                   generated := Suc (generated db)\<rparr>)))"

text \<open>
  Modelled from the spec: persisting a batch of records, each under an identity generated
  in turn.
\<close>

fun insert_all :: "model \<Rightarrow> document list \<Rightarrow> storage \<Rightarrow> string list \<times> storage" where
  "insert_all m [] db = ([], db)"
| "insert_all m (doc # docs) db =
     (let ident = identity_of (generated db);
          db' = db\<lparr>data := (data db)(collection_of m := data db (collection_of m) @ [(ident, doc)]),
                    generated := Suc (generated db)\<rparr>
      in case insert_all m docs db' of (idents, db'') \<Rightarrow> (ident # idents, db''))"

text \<open>
  Modelled from the spec: \<open>insertMany\<close> (\<open>Model.insertMany\<close>) is all or nothing: one invalid
  record fails the batch and nothing is persisted.
\<close>

definition insertMany ::
  "model \<Rightarrow> document list \<Rightarrow> storage \<Rightarrow> (error + string list) \<times> storage" where
  "insertMany m docs db =
     (if \<not> list_all (valid (model_schema m)) docs then (Inl ValidationError, db)
      else (case insert_all m docs db of (idents, db') \<Rightarrow> (Inr idents, db')))"

text \<open>
  Modelled from the spec: \<open>deleteById\<close> (\<open>Model.findByIdAndDelete\<close>, whose result is
  \<open>null\<close> exactly when nothing was found) removes the record with that identity and
  tells whether there was one; \<open>False\<close>, not an error, when there was none.
\<close>

definition deleteById :: "model \<Rightarrow> string \<Rightarrow> storage \<Rightarrow> bool \<times> storage" where
  "deleteById m ident db =
     (if ident \<in> fst ` set (data db (collection_of m))
      then (True, db\<lparr>data := (data db)(collection_of m :=
                               filter (\<lambda>r. fst r \<noteq> ident) (data db (collection_of m)))\<rparr>)
      else (False, db))"

text \<open>
  Modelled from the spec: merging partial fields into a record; a given field replaces the
  record's field of the same name.
\<close>

definition merge_fields :: "document \<Rightarrow> document \<Rightarrow> document" where
  "merge_fields partialFields doc =
     partialFields @ filter (\<lambda>f. fst f \<notin> fst ` set partialFields) doc"

text \<open>
  Modelled from the spec: \<open>updateById\<close> (\<open>Model.findByIdAndUpdate\<close> with \<open>$set\<close>, \<open>new\<close> and
  \<open>runValidators\<close>) merges the given fields into the existing record, validates the
  result against the contract and returns the updated record; not-found (\<open>None\<close>), not an
  error, when no record has that identity.
\<close>

definition updateById ::
  "model \<Rightarrow> string \<Rightarrow> document \<Rightarrow> storage \<Rightarrow> (error + stored option) \<times> storage" where
  "updateById m ident partialFields db =
     (case map_of (data db (collection_of m)) ident of
        None \<Rightarrow> (Inr None, db)
      | Some doc \<Rightarrow>
          (let doc' = merge_fields partialFields doc
           in if \<not> valid (model_schema m) doc' then (Inl ValidationError, db)
              else (Inr (Some (ident, doc')),
                    db\<lparr>data := (data db)(collection_of m :=
                          map (\<lambda>r. if fst r = ident then (ident, doc') else r)
                              (data db (collection_of m)))\<rparr>)))"

section \<open>Route handlers\<close>

text \<open>
  The parsed request body: each of \<open>document\<close>, \<open>documents\<close> and \<open>update\<close> is a record
  (an array of records for \<open>documents\<close>) or absent. Objects and arrays are truthy, so the
  tests \<open>if (req.body.document)\<close> and \<open>if (!updateData)\<close> are tests of presence.
\<close>

record body =
  document :: "document option"
  documents :: "document list option"
  update :: "document option"

datatype reply =
    Documents "stored list"
  | InsertedId string
  | InsertedIds "string list"
  | Deleted string
  | Modified stored
  | NotFound string
  | BadRequest
  | ErrorMessage error

datatype response = Response (status: nat) (reply: reply)

text \<open>A handler calls the accessor operation on whatever value \<open>getModel\<close> gave it.\<close>

fun on_model :: "model property \<Rightarrow> (model \<Rightarrow> 'a) \<Rightarrow> error + 'a" where
  "on_model (Own m) f = Inr (f m)"
| "on_model v f = Inl TypeError"

definition find_handler ::
  "env \<Rightarrow> network \<Rightarrow> string \<Rightarrow> string \<Rightarrow> registry \<times> storage \<Rightarrow>
     response \<times> registry \<times> storage" where
  "find_handler e net database collection st =
     (case getModel e net database collection (fst st) of
        (Inl err, r) \<Rightarrow> (Response 500 (ErrorMessage err), r, snd st)
      | (Inr M, r) \<Rightarrow>
          (case on_model M (\<lambda>m. listAll m (snd st)) of
             Inl err \<Rightarrow> (Response 500 (ErrorMessage err), r, snd st)
           | Inr docs \<Rightarrow> (Response 200 (Documents docs), r, snd st)))"

definition insert_handler ::
  "env \<Rightarrow> network \<Rightarrow> string \<Rightarrow> string \<Rightarrow> body \<Rightarrow> registry \<times> storage \<Rightarrow>
     response \<times> registry \<times> storage" where
  "insert_handler e net database collection b st =
     (case getModel e net database collection (fst st) of
        (Inl err, r) \<Rightarrow> (Response 500 (ErrorMessage err), r, snd st)
      | (Inr M, r) \<Rightarrow>
          (case document b of
             Some doc \<Rightarrow>
               (case on_model M (\<lambda>m. insertOne m doc (snd st)) of
                  Inl err \<Rightarrow> (Response 500 (ErrorMessage err), r, snd st)
                | Inr (Inl err, db) \<Rightarrow> (Response 500 (ErrorMessage err), r, db)
                | Inr (Inr ident, db) \<Rightarrow> (Response 201 (InsertedId ident), r, db))
           | None \<Rightarrow>
               (case documents b of
                  Some docs \<Rightarrow>
                    (case on_model M (\<lambda>m. insertMany m docs (snd st)) of
                       Inl err \<Rightarrow> (Response 500 (ErrorMessage err), r, snd st)
                     | Inr (Inl err, db) \<Rightarrow> (Response 500 (ErrorMessage err), r, db)
                     | Inr (Inr idents, db) \<Rightarrow> (Response 201 (InsertedIds idents), r, db))
                | None \<Rightarrow> (Response 400 BadRequest, r, snd st))))"

definition delete_handler ::
  "env \<Rightarrow> network \<Rightarrow> string \<Rightarrow> string \<Rightarrow> string \<Rightarrow> registry \<times> storage \<Rightarrow>
     response \<times> registry \<times> storage" where
  "delete_handler e net database collection ident st =
     (case getModel e net database collection (fst st) of
        (Inl err, r) \<Rightarrow> (Response 500 (ErrorMessage err), r, snd st)
      | (Inr M, r) \<Rightarrow>
          (case on_model M (\<lambda>m. deleteById m ident (snd st)) of
             Inl err \<Rightarrow> (Response 500 (ErrorMessage err), r, snd st)
           | Inr (found, db) \<Rightarrow>
               (if \<not> found then (Response 404 (NotFound ident), r, db)
                else (Response 200 (Deleted ident), r, db))))"

definition update_handler ::
  "env \<Rightarrow> network \<Rightarrow> string \<Rightarrow> string \<Rightarrow> string \<Rightarrow> body \<Rightarrow> registry \<times> storage \<Rightarrow>
     response \<times> registry \<times> storage" where
  "update_handler e net database collection ident b st =
     (case update b of
        None \<Rightarrow> (Response 400 BadRequest, fst st, snd st)
      | Some updateData \<Rightarrow>
          (case getModel e net database collection (fst st) of
             (Inl err, r) \<Rightarrow> (Response 500 (ErrorMessage err), r, snd st)
           | (Inr M, r) \<Rightarrow>
               (case on_model M (\<lambda>m. updateById m ident updateData (snd st)) of
                  Inl err \<Rightarrow> (Response 500 (ErrorMessage err), r, snd st)
                | Inr (Inl err, db) \<Rightarrow> (Response 500 (ErrorMessage err), r, db)
                | Inr (Inr None, db) \<Rightarrow> (Response 404 (NotFound ident), r, db)
                | Inr (Inr (Some rec), db) \<Rightarrow> (Response 200 (Modified rec), r, db))))"

section \<open>Concrete configurations\<close>

text \<open>An environment with both variables set, a network that is up and one that is down.\<close>

definition env0 :: env where
  "env0 = \<lparr> MONGO_CLIENT_URI = Some ''mongodb://client'',
            MONGO_SERVER_URI = Some ''mongodb://server'' \<rparr>"

definition net_up :: network where
  "net_up n uri = True"

definition net_down :: network where
  "net_down n uri = False"

definition cnt_zero :: "model \<Rightarrow> nat option" where
  "cnt_zero m = Some 0"

definition product_model :: "nat \<Rightarrow> nat \<Rightarrow> string \<Rightarrow> model" where
  "product_model i n u = Model i (Connection n u) ''Products'' productSchema ''Products''"

definition widget :: document where
  "widget = [(''name'', JString ''Widget''), (''price'', JNumber (999 / 100))]"

text \<open>A database that holds one product, under the identity \<open>i\<close>.\<close>

definition widget_storage :: storage where
  "widget_storage =
     \<lparr> data = (\<lambda>k. if k = (''mongodb://client'', ''Products'') then [(''i'', widget)] else []),
       generated = 1 \<rparr>"

definition bad_product :: document where
  "bad_product = [(''name'', JString ''Bad''), (''price'', JNumber (- 1))]"

section \<open>Basic facts about the registries\<close>

lemma uriMap_Some_iff:
  "uriMap e d = Some v \<longleftrightarrow>
     (d = ''ProductsDB'' \<and> v = MONGO_CLIENT_URI e) \<or>
     (d = ''UsersEmployeesDB'' \<and> v = MONGO_SERVER_URI e)"
  by (auto simp: uriMap_def)

lemma configured_not_inherited: "uriMap e d = Some v \<Longrightarrow> d \<notin> set object_prototype_keys"
  by (auto simp: uriMap_Some_iff object_prototype_keys_def)

lemma modelKey_not_inherited: "modelKey d c \<notin> set object_prototype_keys"
proof -
  have "CHR ''-'' \<in> set (modelKey d c)"
    by (simp add: modelKey_def)
  moreover have "\<forall>k \<in> set object_prototype_keys. CHR ''-'' \<notin> set k"
    by (simp add: object_prototype_keys_def)
  ultimately show ?thesis by blast
qed

lemma js_get_models:
  "js_get (models s) (modelKey d c) =
     (case models s (modelKey d c) of None \<Rightarrow> Undefined | Some m \<Rightarrow> Own m)"
  by (simp add: js_get_def modelKey_not_inherited split: option.splits)

text \<open>What one uninterrupted call of \<open>getConnection\<close> does for a configured identity.\<close>

lemma getConnection_configured:
  assumes "uriMap e d = Some (Some u)" "u \<noteq> []"
  shows "getConnection e net d s =
     (case connections s d of
        Some c \<Rightarrow> (Inr (Own c), s)
      | None \<Rightarrow>
         (if net (length (created s)) u
          then (Inr (Own (Connection (length (created s)) u)),
                s\<lparr>created := created s @ [Own (Some u)],
                  connections := (connections s)(d \<mapsto> Connection (length (created s)) u)\<rparr>)
          else (Inl ConnectionError, s\<lparr>created := created s @ [Own (Some u)]\<rparr>)))"
  using assms configured_not_inherited[OF assms(1)]
  by (simp add: getConnection_def getConnection_begin_def js_get_def Let_def split: option.splits)

text \<open>
  \<open>getConnection\<close> reaches its \<open>await\<close>, and so the write \<open>connections[dbName] = ...\<close>
  after it, only for a name that is an own key of \<open>uriMap\<close> with a non-empty URI. Such a
  name is no member of \<open>Object.prototype\<close>, so the write sets an own property of
  \<open>connections\<close>, as the update of the map does.
\<close>

lemma truthy_uri_Own: "truthy_uri (Own a) \<longleftrightarrow> (\<exists>u. a = Some u \<and> u \<noteq> [])"
  by (cases a) auto

lemma getConnection_begin_Await:
  "getConnection_begin e d s = (GC_Await d' n v, s') \<Longrightarrow>
     d' = d \<and> d \<notin> set object_prototype_keys \<and>
     (\<exists>u. uriMap e d = Some (Some u) \<and> u \<noteq> [] \<and> v = Own (Some u))"
  by (auto simp: getConnection_begin_def js_get_def Let_def truthy_uri_Own
      split: if_splits option.splits)

text \<open>
  A name that is neither configured nor a member of \<open>Object.prototype\<close> is rejected, and
  nothing changes.
\<close>

lemma getConnection_unconfigured:
  "uriMap e d = None \<Longrightarrow> d \<notin> set object_prototype_keys \<Longrightarrow>
     getConnection e net d s = (Inl (UnconfiguredDatabase d), s)"
  by (simp add: getConnection_def getConnection_begin_def js_get_def)

lemma getConnection_models: "models (snd (getConnection e net d s)) = models s"
  by (auto simp: getConnection_def getConnection_begin_def Let_def split: sum.splits)

lemma getConnection_again:
  "getConnection e net d s = (Inr c, s') \<Longrightarrow> getConnection e net d s' = (Inr c, s')"
  by (auto simp: getConnection_def getConnection_begin_def js_get_def Let_def
      split: if_splits option.splits sum.splits)

lemma getConnection_cached_after:
  "d \<in> dom (uriMap e) \<Longrightarrow> getConnection e net d s = (Inr c, s') \<Longrightarrow>
     \<exists>k. c = Own k \<and> connections s' d = Some k"
  by (auto simp: getConnection_def getConnection_begin_def js_get_def Let_def
      dest: configured_not_inherited
      split: if_splits option.splits sum.splits)

text \<open>What one uninterrupted call of \<open>getModel\<close> does, on a cached and on an uncached key.\<close>

lemma getModel_cached:
  "models s (modelKey d c) = Some m \<Longrightarrow> getModel e net d c s = (Inr (Own m), s)"
  by (simp add: getModel_def getModel_begin_def js_get_models)

lemma getModel_uncached:
  "models s (modelKey d c) = None \<Longrightarrow>
   getModel e net d c s =
     (case getConnection e net d s of
        (Inl err, s') \<Rightarrow> (Inl err, s')
      | (Inr conn, s') \<Rightarrow>
          (case select_schema c of
             Inl err \<Rightarrow> (Inl err, s')
           | Inr sch \<Rightarrow>
               (case connection_model conn (length (compiled s')) c sch c of
                  Inl err \<Rightarrow> (Inl err, s')
                | Inr m \<Rightarrow>
                    (Inr (Own m), s'\<lparr>models := (models s')(modelKey d c \<mapsto> m),
                                   compiled := compiled s' @ [(model_conn m, c)]\<rparr>))))"
  by (simp add: getModel_def getModel_begin_def js_get_models getConnection_def Let_def
       split: prod.splits sum.splits)

lemma getModel_connection_failure:
  "models s (modelKey d c) = None \<Longrightarrow> getConnection e net d s = (Inl err, s') \<Longrightarrow>
     getModel e net d c s = (Inl err, s')"
  by (simp add: getModel_uncached)

lemma getModel_unconfigured:
  "uriMap e d = None \<Longrightarrow> d \<notin> set object_prototype_keys \<Longrightarrow>
   models s (modelKey d c) = None \<Longrightarrow>
     getModel e net d c s = (Inl (UnconfiguredDatabase d), s)"
  by (simp add: getModel_uncached getConnection_unconfigured)

lemma uriMap_env0:
  "uriMap env0 ''ProductsDB'' = Some (Some ''mongodb://client'')"
  "uriMap env0 ''UsersEmployeesDB'' = Some (Some ''mongodb://server'')"
  by (simp_all add: uriMap_def env0_def)

lemma init_simps [simp]:
  "connections init = Map.empty" "models init = Map.empty"
  "created init = []" "compiled init = []"
  by (simp_all add: init_def)

lemma getModel_models_frame:
  "k \<noteq> modelKey d c \<Longrightarrow> models (snd (getModel e net d c s)) k = models s k"
proof (cases "models s (modelKey d c)")
  case None
  then show "k \<noteq> modelKey d c \<Longrightarrow> ?thesis"
    using getConnection_models[of e net d s]
    by (auto simp: getModel_uncached split: prod.splits sum.splits)
next
  case (Some m)
  then show ?thesis by (simp add: getModel_cached)
qed

lemma getModel_undefined_schema:
  assumes "c = ''Users'' \<or> c = ''Employees''" "models s (modelKey d c) = None"
  shows "((\<exists>err. fst (getConnection e net d s) = Inl err \<and> fst (getModel e net d c s) = Inl err) \<or>
          fst (getModel e net d c s) =
            Inl (ReferenceError (if c = ''Users'' then ''userSchema'' else ''employeeSchema''))) \<and>
         snd (getModel e net d c s) = snd (getConnection e net d s)"
proof -
  have sel: "select_schema c = Inl (ReferenceError (if c = ''Users'' then ''userSchema'' else ''employeeSchema''))"
    using assms(1) by (auto simp: select_schema_def)
  obtain r s' where gc: "getConnection e net d s = (r, s')"
    by (cases "getConnection e net d s")
  show ?thesis
    using gc by (cases r) (simp_all add: getModel_uncached[OF assms(2)] sel)
qed

lemma getModel_Users_fails:
  "models s (modelKey d ''Users'') = None \<Longrightarrow> \<exists>err. fst (getModel e net d ''Users'' s) = Inl err"
  using getModel_undefined_schema[of "''Users''" s d e net] by auto

lemma probe_collections_Users:
  "models s (modelKey d ''Users'') = None \<Longrightarrow>
     \<exists>err. fst (probe_collections e net cnt d (''Users'' # rest) s) = Inl err"
proof -
  assume "models s (modelKey d ''Users'') = None"
  then obtain err where "fst (getModel e net d ''Users'' s) = Inl err"
    using getModel_Users_fails by blast
  then show ?thesis
    by (cases "getModel e net d ''Users'' s") simp
qed

lemma probe_collections_frame:
  "k \<notin> modelKey d ` set cs \<Longrightarrow> models (snd (probe_collections e net cnt d cs s)) k = models s k"
proof (induction cs arbitrary: s)
  case Nil
  then show ?case by simp
next
  case (Cons c cs)
  have k: "k \<noteq> modelKey d c" and rest: "k \<notin> modelKey d ` set cs"
    using Cons.prems by auto
  obtain r s' where gm: "getModel e net d c s = (r, s')"
    by (cases "getModel e net d c s")
  have fr: "models s' k = models s k"
    using getModel_models_frame[OF k, of e net s] gm by simp
  show ?case
    using gm fr Cons.IH[OF rest, of s']
    by (cases r) (auto split: sum.splits)
qed

lemma probe_databases_UsersEmployeesDB:
  assumes "models s (modelKey ''UsersEmployeesDB'' ''Users'') = None"
  shows "\<exists>err. fst (probe_databases e net cnt (''UsersEmployeesDB'' # rest) s) = Inl err"
proof -
  obtain r s' where gc: "getConnection e net ''UsersEmployeesDB'' s = (r, s')"
    by (cases "getConnection e net ''UsersEmployeesDB'' s")
  have "models s' (modelKey ''UsersEmployeesDB'' ''Users'') = None"
    using getConnection_models[of e net "''UsersEmployeesDB''" s] gc assms by simp
  from probe_collections_Users[OF this] obtain err where
    "fst (probe_collections e net cnt ''UsersEmployeesDB'' [''Users'', ''Employees''] s') = Inl err"
    by blast
  then show ?thesis
    using gc
    by (cases r; cases "probe_collections e net cnt ''UsersEmployeesDB'' [''Users'', ''Employees''] s'")
       auto
qed

lemma split_at_unique:
  "xs @ a # ys = us @ a # vs \<Longrightarrow> a \<notin> set us \<Longrightarrow> a \<notin> set vs \<Longrightarrow> xs = us \<and> ys = vs"
proof (induction xs arbitrary: us)
  case Nil
  then show ?case by (cases us) auto
next
  case (Cons x xs)
  then show ?case by (cases us) auto
qed

lemma modelKey_Products_unique:
  assumes "modelKey d c = modelKey d' ''Products''" "uriMap e d' = Some v"
  shows "d = d' \<and> c = ''Products''"
proof -
  have a: "CHR ''-'' \<notin> set d'"
    using assms(2) by (auto simp: uriMap_Some_iff)
  have b: "CHR ''-'' \<notin> set ''Products''" by simp
  have eq: "d @ CHR ''-'' # c = d' @ CHR ''-'' # ''Products''"
    using assms(1) by (simp add: modelKey_def)
  show ?thesis
    by (rule split_at_unique[OF eq a b])
qed

lemma startServer_never_listens: "fst (startServer e net cnt init) \<noteq> Listening"
proof -
  obtain r s1 where gc: "getConnection e net ''ProductsDB'' init = (r, s1)"
    by (cases "getConnection e net ''ProductsDB'' init")
  have m1: "models s1 = Map.empty"
    using getConnection_models[of e net "''ProductsDB''" init] gc by simp
  obtain r2 s2 where pc: "probe_collections e net cnt ''ProductsDB'' [''Products''] s1 = (r2, s2)"
    by (cases "probe_collections e net cnt ''ProductsDB'' [''Products''] s1")
  have "modelKey ''UsersEmployeesDB'' ''Users'' \<notin> modelKey ''ProductsDB'' ` set [''Products'']"
    by (simp add: modelKey_def)
  from probe_collections_frame[OF this, of e net cnt s1]
  have m2: "models s2 (modelKey ''UsersEmployeesDB'' ''Users'') = None"
    using pc m1 by simp
  obtain err where
    "fst (probe_databases e net cnt [''UsersEmployeesDB''] s2) = Inl err"
    using probe_databases_UsersEmployeesDB[OF m2] by blast
  then have "\<exists>err. fst (probe_databases e net cnt [''ProductsDB'', ''UsersEmployeesDB''] init) = Inl err"
    using gc pc
    by (cases r; cases r2; cases "probe_databases e net cnt [''UsersEmployeesDB''] s2") auto
  then show ?thesis
    by (auto simp: startServer_def split: prod.splits sum.splits)
qed


section \<open>The invariant of the running server\<close>

lemma getConnection_begin_cases:
  "getConnection_begin e d s = (t, s') \<Longrightarrow>
     models s' = models s \<and> connections s' = connections s \<and>
     ((\<exists>n v. t = GC_Await d n v \<and> configured e d) \<or>
      (\<exists>k. t = GC_Return (Inr (Own k)) \<and> connections s d = Some k) \<or>
      (\<exists>k. t = GC_Return (Inr (Inherited k))) \<or>
      (\<exists>err. t = GC_Return (Inl err)))"
  by (auto simp: getConnection_begin_def js_get_def Let_def truthy_uri_Own configured_def
      split: if_splits option.splits)

lemma getConnection_begin_ok:
  assumes "registry_inv e s" "getConnection_begin e d s = (t, s')"
  shows "registry_inv e s' \<and> gc_ok e d t \<and> task_ok e (ConnectionCall t)"
  using getConnection_begin_cases[OF assms(2)] assms(1)
  by (auto simp: registry_inv_def)

lemma getModel_begin_ok:
  assumes "registry_inv e s" "getModel_begin e d c s = (t, s')"
  shows "registry_inv e s' \<and> task_ok e (ModelCall t)"
proof (cases "models s (modelKey d c)")
  case None
  obtain t1 s1 where b: "getConnection_begin e d s = (t1, s1)"
    by (cases "getConnection_begin e d s")
  then have "t = GM_Await d c t1" "s' = s1"
    using assms(2) None by (simp_all add: getModel_begin_def js_get_models)
  then show ?thesis
    using getConnection_begin_ok[OF assms(1) b] by simp
next
  case (Some m)
  then have "t = GM_Return (Inr (Own m))" "s' = s"
    using assms(2) by (auto simp: getModel_begin_def js_get_models)
  then show ?thesis using assms(1) by simp
qed

lemma getConnection_resume_ok:
  assumes "registry_inv e s" "gc_ok e d t" "getConnection_resume net t s = (r, s')"
  shows "registry_inv e s' \<and> models s' = models s \<and> (\<forall>k. r = Inr (Own k) \<longrightarrow> configured e d)"
proof (cases t)
  case (GC_Return r0)
  then show ?thesis
    using assms by (cases r0 rule: sum.exhaust; cases "projr r0") auto
next
  case (GC_Await d' n v)
  then show ?thesis
    using assms
    by (auto simp: registry_inv_def Let_def split: sum.splits if_splits)
qed

lemma getConnection_resume_pool_ok:
  assumes "registry_inv e s" "task_ok e (ConnectionCall t)" "getConnection_resume net t s = (r, s')"
  shows "registry_inv e s'"
proof (cases t)
  case (GC_Return r0)
  then show ?thesis using assms by simp
next
  case (GC_Await d' n v)
  then show ?thesis
    using assms
    by (auto simp: registry_inv_def Let_def split: sum.splits if_splits)
qed

lemma select_schema_Inr:
  "select_schema c = Inr sch \<Longrightarrow> c = ''Products'' \<and> sch = productSchema"
  by (auto simp: select_schema_def split: if_splits)

lemma connection_model_Inr:
  "connection_model conn n name sch coll = Inr m \<Longrightarrow>
     \<exists>k. conn = Own k \<and> m = Model n k name sch coll"
  by (cases conn) auto

lemma getModel_resume_ok:
  assumes "registry_inv e s" "task_ok e (ModelCall t)" "getModel_resume net t s = (r, s')"
  shows "registry_inv e s'"
proof (cases t)
  case (GM_Return r0)
  then show ?thesis using assms by simp
next
  case (GM_Await d c t1)
  obtain r1 s1 where gc: "getConnection_resume net t1 s = (r1, s1)"
    by (cases "getConnection_resume net t1 s")
  have ok1: "gc_ok e d t1" using assms(2) GM_Await by simp
  note step = getConnection_resume_ok[OF assms(1) ok1 gc]
  show ?thesis
  proof (cases r1)
    case (Inl err)
    then show ?thesis using assms(3) GM_Await gc step by simp
  next
    case (Inr conn)
    show ?thesis
    proof (cases "select_schema c")
      case (Inl err)
      then show ?thesis using assms(3) GM_Await gc step Inr by simp
    next
      case sel: (Inr sch)
      then have c: "c = ''Products''" and sch: "sch = productSchema"
        using select_schema_Inr by blast+
      show ?thesis
      proof (cases "connection_model conn (length (compiled s1)) c sch c")
        case (Inl err)
        then show ?thesis using assms(3) GM_Await gc step Inr sel by simp
      next
        case cm: (Inr m)
        then obtain k where k: "conn = Own k" and m: "model_schema m = productSchema"
          using connection_model_Inr sch by fastforce
        then have conf: "configured e d" using step Inr by simp
        have st: "s' = s1\<lparr>models := (models s1)(modelKey d c \<mapsto> m),
                    compiled := compiled s1 @ [(model_conn m, c)]\<rparr>"
          using assms(3) GM_Await gc Inr sel cm by (simp add: Let_def)
        show ?thesis
          unfolding st registry_inv_def
          using step conf c m unfolding registry_inv_def by auto
      qed
    qed
  qed
qed

lemma running_inv: "running e s pool \<Longrightarrow> registry_inv e s \<and> (\<forall>t \<in> set pool. task_ok e t)"
proof (induction rule: running.induct)
  case running_init
  then show ?case by (simp add: registry_inv_def)
next
  case (call_getConnection s pool dbName t s')
  then show ?case using getConnection_begin_ok by auto
next
  case (call_getModel s pool dbName collectionName t s')
  then show ?case using getModel_begin_ok by auto
next
  case (resume_getConnection s pool t net r s')
  then have "registry_inv e s'"
    using getConnection_resume_pool_ok by blast
  moreover have "set (remove1 (ConnectionCall t) pool) \<subseteq> set pool"
    by (rule set_remove1_subset)
  ultimately show ?case using resume_getConnection.IH by blast
next
  case (resume_getModel s pool t net r s')
  then have "registry_inv e s'"
    using getModel_resume_ok by blast
  moreover have "set (remove1 (ModelCall t) pool) \<subseteq> set pool"
    by (rule set_remove1_subset)
  ultimately show ?case using resume_getModel.IH by blast
qed

lemma running_getConnection: "running e s pool \<Longrightarrow> running e (snd (getConnection e net d s)) pool"
proof -
  assume r: "running e s pool"
  obtain t s1 where b: "getConnection_begin e d s = (t, s1)"
    by (cases "getConnection_begin e d s")
  obtain res s2 where f: "getConnection_resume net t s1 = (res, s2)"
    by (cases "getConnection_resume net t s1")
  have "running e s2 (remove1 (ConnectionCall t) (ConnectionCall t # pool))"
    by (rule resume_getConnection[OF call_getConnection[OF r b] _ f]) simp
  then show ?thesis using b f by (simp add: getConnection_def)
qed

lemma running_getModel: "running e s pool \<Longrightarrow> running e (snd (getModel e net d c s)) pool"
proof -
  assume r: "running e s pool"
  obtain t s1 where b: "getModel_begin e d c s = (t, s1)"
    by (cases "getModel_begin e d c s")
  obtain res s2 where f: "getModel_resume net t s1 = (res, s2)"
    by (cases "getModel_resume net t s1")
  have "running e s2 (remove1 (ModelCall t) (ModelCall t # pool))"
    by (rule resume_getModel[OF call_getModel[OF r b] _ f]) simp
  then show ?thesis using b f by (simp add: getModel_def)
qed

section \<open>Sequential and overlapping calls\<close>

lemma getModel_again:
  assumes "getModel e net d c s = (Inr m, s')"
  shows "getModel e net d c s' = (Inr m, s')"
proof (cases "models s (modelKey d c)")
  case (Some m0)
  then show ?thesis using assms by (simp add: getModel_cached)
next
  case None
  obtain r s1 where gc: "getConnection e net d s = (r, s1)"
    by (cases "getConnection e net d s")
  from assms obtain m1 where "m = Own m1" "models s' (modelKey d c) = Some m1"
    using gc unfolding getModel_uncached[OF None]
    by (auto split: sum.splits)
  then show ?thesis by (simp add: getModel_cached)
qed

lemma getConnection_begin_configured:
  assumes "uriMap e d = Some (Some u)" "u \<noteq> []" "connections s d = None"
  shows "getConnection_begin e d s =
           (GC_Await d (length (created s)) (Own (Some u)), s\<lparr>created := created s @ [Own (Some u)]\<rparr>)"
  using assms configured_not_inherited[OF assms(1)]
  by (simp add: getConnection_begin_def js_get_def Let_def)

lemma overlapping_getConnection_twice:
  assumes "uriMap e d = Some (Some u)" "u \<noteq> []" "connections s d = None"
    "net (length (created s)) u" "net (Suc (length (created s))) u"
  shows "overlapping_getConnection e net d s =
          (Inr (Own (Connection (length (created s)) u)),
           Inr (Own (Connection (Suc (length (created s))) u)),
           s\<lparr>created := created s @ [Own (Some u), Own (Some u)],
             connections := (connections s)(d \<mapsto> Connection (Suc (length (created s))) u)\<rparr>)"
  using assms
  by (simp add: overlapping_getConnection_def getConnection_begin_configured js_get_def)

lemma overlapping_getModel_twice:
  assumes "uriMap e d = Some (Some u)" "u \<noteq> []" "connections s d = None"
    "models s (modelKey d ''Products'') = None"
    "net (length (created s)) u" "net (Suc (length (created s))) u"
  shows "overlapping_getModel e net d ''Products'' s =
          (Inr (Own (Model (length (compiled s)) (Connection (length (created s)) u)
                       ''Products'' productSchema ''Products'')),
           Inr (Own (Model (Suc (length (compiled s))) (Connection (Suc (length (created s))) u)
                       ''Products'' productSchema ''Products'')),
           s\<lparr>created := created s @ [Own (Some u), Own (Some u)],
             connections := (connections s)(d \<mapsto> Connection (Suc (length (created s))) u),
             models := (models s)(modelKey d ''Products'' \<mapsto>
                Model (Suc (length (compiled s))) (Connection (Suc (length (created s))) u)
                       ''Products'' productSchema ''Products''),
             compiled := compiled s @ [(Connection (length (created s)) u, ''Products''),
                                      (Connection (Suc (length (created s))) u, ''Products'')]\<rparr>)"
  using assms
  by (simp add: overlapping_getModel_def getModel_begin_def js_get_models
      getConnection_begin_configured js_get_def select_schema_def modelKey_not_inherited)

lemma invalid_bad_product: "\<not> valid productSchema bad_product"
  by (simp add: valid_def productSchema_def bad_product_def)

lemma getModel_Products_uncached:
  assumes "uriMap e d = Some (Some u)" "u \<noteq> []" "connections s d = None"
    "models s (modelKey d ''Products'') = None" "net (length (created s)) u"
  shows "getModel e net d ''Products'' s =
          (Inr (Own (product_model (length (compiled s)) (length (created s)) u)),
           s\<lparr>created := created s @ [Own (Some u)],
             connections := (connections s)(d \<mapsto> Connection (length (created s)) u),
             models := (models s)(modelKey d ''Products'' \<mapsto>
                         product_model (length (compiled s)) (length (created s)) u),
             compiled := compiled s @ [(Connection (length (created s)) u, ''Products'')]\<rparr>)"
  using assms
  by (simp add: getModel_uncached getConnection_configured select_schema_def product_model_def)

lemma running_overlapping_getModel:
  assumes "running e s pool"
  shows "running e (snd (snd (overlapping_getModel e net d c s))) pool"
proof -
  obtain t1 s1 where b1: "getModel_begin e d c s = (t1, s1)"
    by (cases "getModel_begin e d c s")
  obtain t2 s2 where b2: "getModel_begin e d c s1 = (t2, s2)"
    by (cases "getModel_begin e d c s1")
  obtain r1 s3 where f1: "getModel_resume net t1 s2 = (r1, s3)"
    by (cases "getModel_resume net t1 s2")
  obtain r2 s4 where f2: "getModel_resume net t2 s3 = (r2, s4)"
    by (cases "getModel_resume net t2 s3")
  have r2: "running e s2 (ModelCall t2 # ModelCall t1 # pool)"
    by (rule call_getModel[OF call_getModel[OF assms b1] b2])
  have "running e s3 (remove1 (ModelCall t1) (ModelCall t2 # ModelCall t1 # pool))"
    by (rule resume_getModel[OF r2 _ f1]) simp
  then have r3: "running e s3 (ModelCall t2 # pool)"
    by (cases "t1 = t2") simp_all
  have "running e s4 (remove1 (ModelCall t2) (ModelCall t2 # pool))"
    by (rule resume_getModel[OF r3 _ f2]) simp
  then show ?thesis
    using b1 b2 f1 f2 by (simp add: overlapping_getModel_def)
qed

lemma getModel_Own_cached:
  assumes "getModel e net d c s = (Inr (Own m), s')"
  shows "models s' (modelKey d c) = Some m"
proof -
  have "getModel e net d c s' = (Inr (Own m), s')"
    using assms by (rule getModel_again)
  then show ?thesis
    by (cases "models s' (modelKey d c)")
       (auto simp: getModel_cached getModel_uncached split: prod.splits sum.splits)
qed

lemma running_getModel_schema:
  assumes "running e s pool" "getModel e net d c s = (Inr (Own m), s')"
  shows "model_schema m = productSchema"
proof -
  have "running e s' pool"
    using running_getModel[OF assms(1), of net d c] assms(2) by simp
  then have "registry_inv e s'"
    using running_inv by blast
  then show ?thesis
    using getModel_Own_cached[OF assms(2)] unfolding registry_inv_def by blast
qed

lemma getModel_env0_init:
  "getModel env0 net_up ''ProductsDB'' ''Products'' init =
     (Inr (Own (product_model 0 0 ''mongodb://client'')),
      init\<lparr>created := [Own (Some ''mongodb://client'')],
           connections := [''ProductsDB'' \<mapsto> Connection 0 ''mongodb://client''],
           models := [modelKey ''ProductsDB'' ''Products'' \<mapsto> product_model 0 0 ''mongodb://client''],
           compiled := [(Connection 0 ''mongodb://client'', ''Products'')]\<rparr>)"
  by (simp add: getModel_Products_uncached[OF uriMap_env0(1)] net_up_def)

lemma listAll_widget_storage:
  "listAll (product_model i n ''mongodb://client'') widget_storage = [(''i'', widget)]"
  by (simp add: listAll_def widget_storage_def collection_of_def product_model_def)

lemma valid_widget: "valid productSchema widget"
  by (simp add: valid_def productSchema_def widget_def)

section \<open>The connection registry\<close>

text \<open>
  Claim C2. For a database identity that is a key of the URI mapping, once a call of
  \<open>getConnection\<close> has succeeded, a second call made afterwards returns the same
  connection, which is the cached one, and leaves the whole state as it was: no entry of
  either cache changes and no further \<open>createConnection\<close> call is made.
\<close>

theorem getConnection_idempotent_after_success:
  "d \<in> dom (uriMap e) \<Longrightarrow> getConnection e net d s = (Inr c, s') \<Longrightarrow>
     getConnection e net d s' = (Inr c, s') \<and> (\<exists>k. c = Own k \<and> connections s' d = Some k)"
  using getConnection_again getConnection_cached_after by blast

theorem getConnection_idempotent_after_success_witness:
  "''ProductsDB'' \<in> dom (uriMap env0) \<and>
   getConnection env0 net_up ''ProductsDB'' init =
     (Inr (Own (Connection 0 ''mongodb://client'')),
      init\<lparr>created := [Own (Some ''mongodb://client'')],
           connections := [''ProductsDB'' \<mapsto> Connection 0 ''mongodb://client'']\<rparr>) \<and>
   getConnection env0 net_up ''ProductsDB''
     (init\<lparr>created := [Own (Some ''mongodb://client'')],
           connections := [''ProductsDB'' \<mapsto> Connection 0 ''mongodb://client'']\<rparr>) =
     (Inr (Own (Connection 0 ''mongodb://client'')),
      init\<lparr>created := [Own (Some ''mongodb://client'')],
           connections := [''ProductsDB'' \<mapsto> Connection 0 ''mongodb://client'']\<rparr>)"
proof -
  have h1: "''ProductsDB'' \<in> dom (uriMap env0)"
    by (simp add: uriMap_env0 domIff)
  have h2: "getConnection env0 net_up ''ProductsDB'' init =
              (Inr (Own (Connection 0 ''mongodb://client'')),
               init\<lparr>created := [Own (Some ''mongodb://client'')],
                    connections := [''ProductsDB'' \<mapsto> Connection 0 ''mongodb://client'']\<rparr>)"
    by (simp add: getConnection_configured[OF uriMap_env0(1)] net_up_def)
  from getConnection_idempotent_after_success[OF h1 h2] h1 h2 show ?thesis
    by blast
qed

text \<open>
  Claim C3. An identity that is absent from the URI mapping should be rejected with
  \<open>UnconfiguredDatabase\<close>. The test \<open>!uriMap[dbName]\<close> also sees the members that
  \<open>uriMap\<close> inherits from \<open>Object.prototype\<close>: for \<open>dbName = "constructor"\<close> both
  \<open>uriMap[dbName]\<close> and \<open>connections[dbName]\<close> are the (truthy) function \<open>Object\<close>, so the
  call takes the "reusing existing connection" branch and returns that function instead of
  failing. The cache is left unchanged.
\<close>

theorem getConnection_inherited_name_succeeds:
  "uriMap e ''constructor'' = None \<and>
   getConnection e net ''constructor'' init = (Inr (Inherited ''constructor''), init)"
  by (simp add: getConnection_def getConnection_begin_def js_get_def uriMap_def
      object_prototype_keys_def)

text \<open>
  Claim C5. For a configured identity with no cached connection, when the
  \<open>createConnection\<close> call fails, \<open>getConnection\<close> fails with \<open>ConnectionError\<close>, the
  connection cache is as before (so it still has no entry for the identity), and the next
  call for the same identity issues a new \<open>createConnection\<close> call for the same URI,
  whatever the network does then.
\<close>

theorem getConnection_failure_not_cached:
  assumes "uriMap e d = Some (Some u)" "u \<noteq> []" "connections s d = None"
    "\<not> net (length (created s)) u"
  shows "fst (getConnection e net d s) = Inl ConnectionError \<and>
         connections (snd (getConnection e net d s)) = connections s \<and>
         created (snd (getConnection e net d s)) = created s @ [Own (Some u)] \<and>
         created (snd (getConnection e later d (snd (getConnection e net d s)))) =
           created s @ [Own (Some u), Own (Some u)]"
  using assms by (simp add: getConnection_configured)

theorem getConnection_failure_not_cached_witness:
  "uriMap env0 ''ProductsDB'' = Some (Some ''mongodb://client'') \<and>
   ''mongodb://client'' \<noteq> [] \<and> connections init ''ProductsDB'' = None \<and>
   \<not> net_down (length (created init)) ''mongodb://client'' \<and>
   fst (getConnection env0 net_down ''ProductsDB'' init) = Inl ConnectionError \<and>
   connections (snd (getConnection env0 net_down ''ProductsDB'' init)) ''ProductsDB'' = None \<and>
   created (snd (getConnection env0 net_up ''ProductsDB''
              (snd (getConnection env0 net_down ''ProductsDB'' init)))) =
     [Own (Some ''mongodb://client''), Own (Some ''mongodb://client'')]"
proof -
  have h2: "''mongodb://client'' \<noteq> []" by simp
  have h3: "connections init ''ProductsDB'' = None" by simp
  have h4: "\<not> net_down (length (created init)) ''mongodb://client''"
    by (simp add: net_down_def)
  note inst = getConnection_failure_not_cached[where e = env0 and d = "''ProductsDB''"
      and u = "''mongodb://client''" and s = init and net = net_down and later = net_up]
  from inst[OF uriMap_env0(1) h2 h3 h4] uriMap_env0(1) h4
  show ?thesis by simp
qed

section \<open>The model registry\<close>



text \<open>
  Claim C6. \<open>getModel\<close> resolves the connection before it looks at the collection name,
  so an unconfigured identity should be reported as \<open>UnconfiguredDatabase\<close> whatever the
  collection name is. For the identity \<open>constructor\<close>, which \<open>uriMap\<close> inherits from
  \<open>Object.prototype\<close>, \<open>getConnection\<close> does not fail, and the call with an unknown
  collection name is reported as \<open>UnknownCollection\<close>.
\<close>

theorem getModel_inherited_name_unknown_collection:
  "uriMap e ''constructor'' = None \<and>
   select_schema ''Nope'' = Inl (UnknownCollection ''Nope'') \<and>
   getModel e net ''constructor'' ''Nope'' init = (Inl (UnknownCollection ''Nope''), init)"
  by (simp add: getModel_uncached getConnection_def getConnection_begin_def js_get_def
      uriMap_def object_prototype_keys_def select_schema_def)

section \<open>Collections whose schema is not defined\<close>

text \<open>
  Claim C8. For the collection names \<open>Users\<close> and \<open>Employees\<close> on an uncached key,
  \<open>getModel\<close> never produces an accessor: either resolving the connection fails and that
  error is reported, or the \<open>switch\<close> reads the undeclared variable and the call fails
  with the \<open>ReferenceError\<close> for \<open>userSchema\<close> or \<open>employeeSchema\<close>. The accessor cache is
  not changed, so the key stays uncached. The startup probe asks for \<open>Users\<close>, so
  \<open>startServer\<close> on the empty registries never reaches \<open>app.listen\<close>, whatever the
  environment, the network and the database do.
\<close>

theorem getModel_Users_Employees_always_fail:
  assumes "c = ''Users'' \<or> c = ''Employees''" "models s (modelKey d c) = None"
  shows "((\<exists>err. fst (getConnection e net d s) = Inl err \<and> fst (getModel e net d c s) = Inl err) \<or>
          fst (getModel e net d c s) =
            Inl (ReferenceError (if c = ''Users'' then ''userSchema'' else ''employeeSchema''))) \<and>
         models (snd (getModel e net d c s)) = models s \<and>
         (\<exists>err. fst (startServer e net cnt init) = Exit1 err)"
proof -
  have "fst (startServer e net cnt init) \<noteq> Listening"
    by (rule startServer_never_listens)
  then have "\<exists>err. fst (startServer e net cnt init) = Exit1 err"
    by (cases "fst (startServer e net cnt init)") auto
  then show ?thesis
    using getModel_undefined_schema[OF assms, of e net] getConnection_models[of e net d s]
    by simp
qed

theorem getModel_Users_Employees_always_fail_witness:
  "(''Users'' = ''Users'' \<or> ''Users'' = ''Employees'') \<and>
   models init (modelKey ''UsersEmployeesDB'' ''Users'') = None \<and>
   fst (getModel env0 net_up ''UsersEmployeesDB'' ''Users'' init) = Inl (ReferenceError ''userSchema'') \<and>
   models (snd (getModel env0 net_up ''UsersEmployeesDB'' ''Users'' init)) = models init \<and>
   fst (startServer env0 net_up cnt_zero init) = Exit1 (ReferenceError ''userSchema'')"
proof -
  have h1: "''Users'' = ''Users'' \<or> ''Users'' = ''Employees''" by simp
  have h2: "models init (modelKey ''UsersEmployeesDB'' ''Users'') = None" by simp
  have gc: "fst (getConnection env0 net_up ''UsersEmployeesDB'' init) =
              Inr (Own (Connection 0 ''mongodb://server''))"
    by (simp add: getConnection_configured[OF uriMap_env0(2)] net_up_def)
  have st: "fst (startServer env0 net_up cnt_zero init) = Exit1 (ReferenceError ''userSchema'')"
    by (simp add: startServer_def getModel_uncached getModel_cached modelKey_def
        getConnection_configured[OF uriMap_env0(1)] getConnection_configured[OF uriMap_env0(2)]
        net_up_def select_schema_def cnt_zero_def)
  from getModel_Users_Employees_always_fail[OF h1 h2, of env0 net_up cnt_zero] gc st h2
  show ?thesis by simp
qed

section \<open>Concurrent callers\<close>

text \<open>
  Claim C1. Neither function has a single-flight mechanism: the cache is read before the
  \<open>await\<close> and written after it. From a state where a configured identity has no cached
  connection and the \<open>Products\<close> key is uncached, with the network up:
  two calls of \<open>getModel\<close> made one after the other construct once (one
  \<open>createConnection\<close> call, one \<open>connection.model\<close> call) and return the same accessor,
  the second call changing nothing; two overlapping calls of \<open>getModel\<close> each establish a
  connection and each compile a model, return different accessors, and the caches keep the
  later ones; two overlapping calls of \<open>getConnection\<close> likewise establish two connections
  and return different handles.
\<close>

theorem calls_coalesce_only_in_sequence:
  assumes "uriMap e d = Some (Some u)" "u \<noteq> []" "connections s d = None"
    "models s (modelKey d ''Products'') = None"
    "net (length (created s)) u" "net (Suc (length (created s))) u"
  shows "fst (getModel e net d ''Products'' s) =
           Inr (Own (product_model (length (compiled s)) (length (created s)) u)) \<and>
         getModel e net d ''Products'' (snd (getModel e net d ''Products'' s)) =
           (Inr (Own (product_model (length (compiled s)) (length (created s)) u)),
            snd (getModel e net d ''Products'' s)) \<and>
         created (snd (getModel e net d ''Products'' s)) = created s @ [Own (Some u)] \<and>
         compiled (snd (getModel e net d ''Products'' s)) =
           compiled s @ [(Connection (length (created s)) u, ''Products'')] \<and>
         overlapping_getModel e net d ''Products'' s =
          (Inr (Own (product_model (length (compiled s)) (length (created s)) u)),
           Inr (Own (product_model (Suc (length (compiled s))) (Suc (length (created s))) u)),
           s\<lparr>created := created s @ [Own (Some u), Own (Some u)],
             connections := (connections s)(d \<mapsto> Connection (Suc (length (created s))) u),
             models := (models s)(modelKey d ''Products'' \<mapsto>
                product_model (Suc (length (compiled s))) (Suc (length (created s))) u),
             compiled := compiled s @ [(Connection (length (created s)) u, ''Products''),
                                      (Connection (Suc (length (created s))) u, ''Products'')]\<rparr>) \<and>
         overlapping_getConnection e net d s =
          (Inr (Own (Connection (length (created s)) u)),
           Inr (Own (Connection (Suc (length (created s))) u)),
           s\<lparr>created := created s @ [Own (Some u), Own (Some u)],
             connections := (connections s)(d \<mapsto> Connection (Suc (length (created s))) u)\<rparr>)"
proof -
  note first = getModel_Products_uncached[where net = net, OF assms(1-5)]
  have second: "getModel e net d ''Products'' (snd (getModel e net d ''Products'' s)) =
           (Inr (Own (product_model (length (compiled s)) (length (created s)) u)),
            snd (getModel e net d ''Products'' s))"
    using getModel_again[OF first] by (simp add: first)
  show ?thesis
    using second overlapping_getModel_twice[where net = net, OF assms]
      overlapping_getConnection_twice[where net = net, OF assms(1-3,5,6)]
    by (simp add: first product_model_def)
qed

theorem calls_coalesce_only_in_sequence_witness:
  "uriMap env0 ''ProductsDB'' = Some (Some ''mongodb://client'') \<and> ''mongodb://client'' \<noteq> [] \<and>
   connections init ''ProductsDB'' = None \<and> models init (modelKey ''ProductsDB'' ''Products'') = None \<and>
   net_up (length (created init)) ''mongodb://client'' \<and>
   net_up (Suc (length (created init))) ''mongodb://client'' \<and>
   fst (getModel env0 net_up ''ProductsDB'' ''Products'' init) =
     Inr (Own (product_model 0 0 ''mongodb://client'')) \<and>
   fst (getModel env0 net_up ''ProductsDB'' ''Products''
          (snd (getModel env0 net_up ''ProductsDB'' ''Products'' init))) =
     Inr (Own (product_model 0 0 ''mongodb://client'')) \<and>
   fst (overlapping_getModel env0 net_up ''ProductsDB'' ''Products'' init) =
     Inr (Own (product_model 0 0 ''mongodb://client'')) \<and>
   fst (snd (overlapping_getModel env0 net_up ''ProductsDB'' ''Products'' init)) =
     Inr (Own (product_model 1 1 ''mongodb://client'')) \<and>
   fst (overlapping_getConnection env0 net_up ''ProductsDB'' init) =
     Inr (Own (Connection 0 ''mongodb://client'')) \<and>
   fst (snd (overlapping_getConnection env0 net_up ''ProductsDB'' init)) =
     Inr (Own (Connection 1 ''mongodb://client''))"
proof -
  have h2: "''mongodb://client'' \<noteq> []" by simp
  have h3: "connections init ''ProductsDB'' = None" by simp
  have h4: "models init (modelKey ''ProductsDB'' ''Products'') = None" by simp
  have h5: "net_up (length (created init)) ''mongodb://client''" by (simp add: net_up_def)
  have h6: "net_up (Suc (length (created init))) ''mongodb://client''" by (simp add: net_up_def)
  note inst = calls_coalesce_only_in_sequence[where e = env0 and d = "''ProductsDB''" and u = "''mongodb://client''"
      and s = init and net = net_up]
  from inst[OF uriMap_env0(1) h2 h3 h4 h5 h6] uriMap_env0(1) h5 h6
  show ?thesis by simp
qed

text \<open>
  The claim as stated, at the empty registries: the two overlapping callers of \<open>getModel\<close>
  receive different accessors, two models were compiled and two connections established;
  the two overlapping callers of \<open>getConnection\<close> receive different connections.
\<close>

theorem overlapping_calls_construct_twice:
  "fst (overlapping_getModel env0 net_up ''ProductsDB'' ''Products'' init) \<noteq>
   fst (snd (overlapping_getModel env0 net_up ''ProductsDB'' ''Products'' init)) \<and>
   length (compiled (snd (snd (overlapping_getModel env0 net_up ''ProductsDB'' ''Products'' init)))) = 2 \<and>
   length (created (snd (snd (overlapping_getModel env0 net_up ''ProductsDB'' ''Products'' init)))) = 2 \<and>
   fst (overlapping_getConnection env0 net_up ''ProductsDB'' init) \<noteq>
   fst (snd (overlapping_getConnection env0 net_up ''ProductsDB'' init))"
  by (simp add: overlapping_getModel_twice[OF uriMap_env0(1)]
      overlapping_getConnection_twice[OF uriMap_env0(1)] net_up_def)

section \<open>The composite cache key\<close>

text \<open>
  Claim C7. \<open>getModel\<close> answers from the accessor cache before it looks at the database
  identity, and the key \<open>dbName + '-' + collectionName\<close> is the same for the pairs
  \<open>(ProductsDB, X-Y)\<close> and \<open>(ProductsDB-X, Y)\<close>. But in every state the running server can
  be in, under any interleaving of calls, a key that is cached for the pair \<open>(d, c)\<close> has
  \<open>c = Products\<close> and \<open>d\<close> an own key of \<open>uriMap\<close> with a non-empty URI: a cache hit never
  serves an identity that is absent from the mapping.
\<close>

theorem cache_hit_only_for_configured_identity:
  "modelKey ''ProductsDB'' ''X-Y'' = modelKey ''ProductsDB-X'' ''Y'' \<and>
   (models s (modelKey d c) = Some m \<longrightarrow> getModel e net d c s = (Inr (Own m), s)) \<and>
   (running e s pool \<longrightarrow> models s (modelKey d c) = Some m \<longrightarrow>
      c = ''Products'' \<and> (\<exists>u. uriMap e d = Some (Some u) \<and> u \<noteq> []))"
proof -
  have "c = ''Products'' \<and> (\<exists>u. uriMap e d = Some (Some u) \<and> u \<noteq> [])"
    if r: "running e s pool" and m: "models s (modelKey d c) = Some m"
  proof -
    from running_inv[OF r] m obtain d' u where
      k: "modelKey d c = modelKey d' ''Products''" and u: "uriMap e d' = Some (Some u)" "u \<noteq> []"
      unfolding registry_inv_def configured_def by blast
    from modelKey_Products_unique[OF k u(1)] u show ?thesis by blast
  qed
  then show ?thesis
    by (simp add: getModel_cached modelKey_def)
qed

theorem cache_hit_only_for_configured_identity_witness:
  "running env0 (snd (getModel env0 net_up ''ProductsDB'' ''Products'' init)) [] \<and>
   models (snd (getModel env0 net_up ''ProductsDB'' ''Products'' init))
      (modelKey ''ProductsDB'' ''Products'') = Some (product_model 0 0 ''mongodb://client'') \<and>
   getModel env0 net_down ''ProductsDB'' ''Products''
      (snd (getModel env0 net_up ''ProductsDB'' ''Products'' init)) =
     (Inr (Own (product_model 0 0 ''mongodb://client'')),
      snd (getModel env0 net_up ''ProductsDB'' ''Products'' init)) \<and>
   (\<exists>u. uriMap env0 ''ProductsDB'' = Some (Some u) \<and> u \<noteq> [])"
proof -
  have r: "running env0 (snd (getModel env0 net_up ''ProductsDB'' ''Products'' init)) []"
    by (rule running_getModel[OF running_init])
  have m: "models (snd (getModel env0 net_up ''ProductsDB'' ''Products'' init))
      (modelKey ''ProductsDB'' ''Products'') = Some (product_model 0 0 ''mongodb://client'')"
    by (simp add: getModel_Products_uncached[OF uriMap_env0(1)] net_up_def)
  from cache_hit_only_for_configured_identity[of "snd (getModel env0 net_up ''ProductsDB'' ''Products'' init)" "''ProductsDB''"
        "''Products''" "product_model 0 0 ''mongodb://client''" env0 net_down "[]"] r m
  show ?thesis by blast
qed

text \<open>
  The scenario of the claim: \<open>getModel('ProductsDB', 'X-Y')\<close> fails with
  \<open>UnknownCollection\<close> and caches no accessor, and the following
  \<open>getModel('ProductsDB-X', 'Y')\<close> fails with \<open>UnconfiguredDatabase\<close>.
\<close>

theorem colliding_key_scenario_fails:
  "fst (getModel env0 net_up ''ProductsDB'' ''X-Y'' init) = Inl (UnknownCollection ''X-Y'') \<and>
   models (snd (getModel env0 net_up ''ProductsDB'' ''X-Y'' init)) (modelKey ''ProductsDB'' ''X-Y'') = None \<and>
   fst (getModel env0 net_up ''ProductsDB-X'' ''Y'' (snd (getModel env0 net_up ''ProductsDB'' ''X-Y'' init))) =
     Inl (UnconfiguredDatabase ''ProductsDB-X'')"
proof -
  have first: "getModel env0 net_up ''ProductsDB'' ''X-Y'' init =
      (Inl (UnknownCollection ''X-Y''),
       init\<lparr>created := [Own (Some ''mongodb://client'')],
            connections := [''ProductsDB'' \<mapsto> Connection 0 ''mongodb://client'']\<rparr>)"
    by (simp add: getModel_uncached getConnection_configured[OF uriMap_env0(1)] net_up_def
        select_schema_def)
  have u: "uriMap env0 ''ProductsDB-X'' = None"
    by (simp add: uriMap_def)
  have p: "''ProductsDB-X'' \<notin> set object_prototype_keys"
    by (simp add: object_prototype_keys_def)
  show ?thesis
    by (simp add: first getModel_unconfigured[OF u p])
qed

section \<open>Inserting, deleting and updating through the routes\<close>

text \<open>
  Claim C9. Once \<open>getModel\<close> has produced an accessor, inserting a record that violates
  the accessor's contract fails with \<open>ValidationError\<close> and leaves the database as it was;
  the \<open>POST /insert\<close> handler answers 500 with that error, and a \<open>GET /find\<close> afterwards
  lists exactly the records that were there before. In every state the running server can
  be in, the accessor's contract is \<open>productSchema\<close>, which the record
  \<open>{name: "Bad", price: -1}\<close> violates: its \<open>price\<close> is below the minimum 0.
\<close>

theorem invalid_record_not_persisted:
  assumes "getModel e net d c r = (Inr (Own m), r')" "\<not> valid (model_schema m) doc"
  shows "insertOne m doc db = (Inl ValidationError, db) \<and>
         insert_handler e net d c \<lparr>document = Some doc, documents = ds, update = up\<rparr> (r, db) =
           (Response 500 (ErrorMessage ValidationError), r', db) \<and>
         find_handler e net d c (r', db) = (Response 200 (Documents (listAll m db)), r', db) \<and>
         (running e r pool \<longrightarrow> model_schema m = productSchema) \<and>
         \<not> valid productSchema bad_product"
  using assms getModel_again[OF assms(1)] invalid_bad_product running_getModel_schema[OF _ assms(1)]
  by (simp add: insertOne_def insert_handler_def find_handler_def)

theorem invalid_record_not_persisted_witness:
  "running env0 init [] \<and>
   model_schema (product_model 0 0 ''mongodb://client'') = productSchema \<and>
   getModel env0 net_up ''ProductsDB'' ''Products'' init =
     (Inr (Own (product_model 0 0 ''mongodb://client'')),
      snd (getModel env0 net_up ''ProductsDB'' ''Products'' init)) \<and>
   \<not> valid (model_schema (product_model 0 0 ''mongodb://client'')) bad_product \<and>
   insertOne (product_model 0 0 ''mongodb://client'') bad_product widget_storage =
     (Inl ValidationError, widget_storage) \<and>
   fst (insert_handler env0 net_up ''ProductsDB'' ''Products''
          \<lparr>document = Some bad_product, documents = None, update = None\<rparr> (init, widget_storage)) =
     Response 500 (ErrorMessage ValidationError) \<and>
   fst (find_handler env0 net_up ''ProductsDB'' ''Products''
          (snd (insert_handler env0 net_up ''ProductsDB'' ''Products''
             \<lparr>document = Some bad_product, documents = None, update = None\<rparr> (init, widget_storage)))) =
     Response 200 (Documents [(''i'', widget)])"
proof -
  have h1: "getModel env0 net_up ''ProductsDB'' ''Products'' init =
     (Inr (Own (product_model 0 0 ''mongodb://client'')),
      snd (getModel env0 net_up ''ProductsDB'' ''Products'' init))"
    by (simp add: getModel_env0_init)
  have h2: "\<not> valid (model_schema (product_model 0 0 ''mongodb://client'')) bad_product"
    by (simp add: product_model_def invalid_bad_product)
  have h3: "running env0 init []"
    by (rule running_init)
  from invalid_record_not_persisted[OF h1 h2, of widget_storage None None "[]"] h1 h2 h3
  show ?thesis
    by (simp add: listAll_widget_storage)
qed

text \<open>
  Claim C10. Once \<open>getModel\<close> has produced an accessor, for an identity that no record of
  the collection has, \<open>deleteById\<close> returns \<open>False\<close> and \<open>updateById\<close> returns not-found,
  both as values and with the database unchanged; the \<open>DELETE /delete\<close> handler answers
  404, and so does the \<open>PUT /update\<close> handler.
\<close>

theorem missing_identity_not_found:
  assumes "getModel e net d c r = (Inr (Own m), r')" "ident \<notin> fst ` set (listAll m db)"
  shows "deleteById m ident db = (False, db) \<and>
         updateById m ident upd db = (Inr None, db) \<and>
         delete_handler e net d c ident (r, db) = (Response 404 (NotFound ident), r', db) \<and>
         update_handler e net d c ident \<lparr>document = dc, documents = ds, update = Some upd\<rparr> (r, db) =
           (Response 404 (NotFound ident), r', db)"
proof -
  have none: "map_of (data db (collection_of m)) ident = None"
    using assms(2) by (simp add: listAll_def map_of_eq_None_iff)
  have del: "deleteById m ident db = (False, db)"
    using assms(2) by (simp add: deleteById_def listAll_def)
  have upd: "updateById m ident upd db = (Inr None, db)"
    using none by (simp add: updateById_def)
  show ?thesis
    using assms(1) del upd
    by (simp add: delete_handler_def update_handler_def)
qed

theorem missing_identity_not_found_witness:
  "getModel env0 net_up ''ProductsDB'' ''Products'' init =
     (Inr (Own (product_model 0 0 ''mongodb://client'')),
      snd (getModel env0 net_up ''ProductsDB'' ''Products'' init)) \<and>
   ''nonexistent-id'' \<notin> fst ` set (listAll (product_model 0 0 ''mongodb://client'') widget_storage) \<and>
   deleteById (product_model 0 0 ''mongodb://client'') ''nonexistent-id'' widget_storage =
     (False, widget_storage) \<and>
   updateById (product_model 0 0 ''mongodb://client'') ''nonexistent-id''
       [(''price'', JNumber 5)] widget_storage = (Inr None, widget_storage) \<and>
   fst (delete_handler env0 net_up ''ProductsDB'' ''Products'' ''nonexistent-id''
          (init, widget_storage)) = Response 404 (NotFound ''nonexistent-id'') \<and>
   fst (update_handler env0 net_up ''ProductsDB'' ''Products'' ''nonexistent-id''
          \<lparr>document = None, documents = None, update = Some [(''price'', JNumber 5)]\<rparr>
          (init, widget_storage)) = Response 404 (NotFound ''nonexistent-id'')"
proof -
  have h1: "getModel env0 net_up ''ProductsDB'' ''Products'' init =
     (Inr (Own (product_model 0 0 ''mongodb://client'')),
      snd (getModel env0 net_up ''ProductsDB'' ''Products'' init))"
    by (simp add: getModel_env0_init)
  have h2: "''nonexistent-id'' \<notin>
      fst ` set (listAll (product_model 0 0 ''mongodb://client'') widget_storage)"
    by (simp add: listAll_widget_storage)
  from missing_identity_not_found[OF h1 h2, of "[(''price'', JNumber 5)]" None None] h1 h2
  show ?thesis by simp
qed

end
